theory Spec2Isabelle
  imports Main "HOL-Library.Multiset"
begin

section \<open>The workflow-dispatch command of expotools\<close>

text \<open>
  A shallow embedding of \<^verbatim>\<open>tools/expotools/src/commands/WorkflowDispatch.ts\<close>.
  Every asynchronous function of the command becomes a function that takes the outside
  world (environment variables, the remote API, the file system, the user, git) and
  returns how the call ended together with the list of effects it performed, in order.

  What the runtime and the libraries do is not code of the command. The comparison and
  the lowercasing of strings, the file system, the user and git are parameters of the
  world; the request library is modelled by its contract.
\<close>

subsection \<open>Data\<close>

text \<open>
  An entry of \<^verbatim>\<open>response.data.workflows\<close>. The type \<^verbatim>\<open>Workflow\<close> of the command names
  the fields \<^verbatim>\<open>id\<close>, \<^verbatim>\<open>name\<close> and \<^verbatim>\<open>path\<close>; the objects of the listing also carry
  \<^verbatim>\<open>state\<close>, which the filter reads. The field \<^verbatim>\<open>id\<close> is written \<open>id'\<close>.
\<close>

record workflow =
  id' :: int
  name :: string
  path :: string
  state :: string

record CommandOptions =
  ref :: "string option"

datatype param = Str string | Num int

text \<open>A call of \<^verbatim>\<open>request(route, parameters)\<close>: the route, the headers, the other parameters.\<close>

record request =
  route :: string
  headers :: "(string \<times> string) list"
  params :: "(string \<times> param) list"

text \<open>What \<^verbatim>\<open>request\<close> resolves to: the status and, for the listing, \<^verbatim>\<open>data.workflows\<close>.\<close>

record response =
  status :: int
  data_workflows :: "workflow list"

datatype error =
    MissingToken
  | MissingWorkflowName
  | WorkflowNotFound "int option"
  | RequestFailed
  | GitFailed
  | PromptAborted

text \<open>
  How a call ends: it returns a value, it throws, or it ends the process with
  \<^verbatim>\<open>process.exit(n)\<close>.
\<close>

datatype 'a outcome = Returned 'a | Thrown error | Exited int

text \<open>
  The effects of the command. \<open>LoggerError r\<close> is the call of \<^verbatim>\<open>logger.error\<close> with the
  serialisation \<^verbatim>\<open>JSON.stringify(response, null, 2)\<close> of the whole response \<open>r\<close>;
  \<open>Prompt choices pageSize\<close> is the list question of \<^verbatim>\<open>inquirer.prompt\<close>, each choice a
  pair of its \<^verbatim>\<open>name\<close> and its \<^verbatim>\<open>value\<close>.
\<close>

datatype event =
    Request request
  | PathExists string
  | Prompt "(string \<times> int) list" nat
  | GitCurrentBranch
  | LoggerError response
  | LoggerSuccess

text \<open>
  The world outside the command. None of these is code of the command:
  \<^item> \<open>env_GITHUB_TOKEN\<close>, \<open>env_CI\<close>: \<^verbatim>\<open>process.env\<close>, a variable being unset (\<open>None\<close>) or a string;
  \<^item> \<open>http_answer\<close>: the answer of the remote to a request, its status before anything
    else, \<open>None\<close> when no answer arrives;
  \<^item> \<open>EXPO_DIR\<close>, \<open>path_join\<close>, \<open>fs_pathExists\<close>: the constant of \<^verbatim>\<open>../Constants\<close>,
    \<^verbatim>\<open>path.join\<close> and \<^verbatim>\<open>fs.pathExists\<close>;
  \<^item> \<open>localeCompare\<close>, \<open>toLowerCase\<close>: \<^verbatim>\<open>String.prototype.localeCompare\<close> and
    \<^verbatim>\<open>String.prototype.toLowerCase\<close> of the runtime;
  \<^item> \<open>user_choice\<close>: the position of the entry the user picks in the list question; a
    position outside the list stands for a question that is never answered;
  \<^item> \<open>git_currentBranch\<close>: the answer of \<^verbatim>\<open>Git.getCurrentBranchNameAsync\<close>, \<open>None\<close> when
    the query fails.
\<close>

record world =
  env_GITHUB_TOKEN :: "string option"
  env_CI :: "string option"
  http_answer :: "request \<Rightarrow> response option"
  EXPO_DIR :: string
  path_join :: "string \<Rightarrow> string \<Rightarrow> string"
  fs_pathExists :: "string \<Rightarrow> bool"
  localeCompare :: "string \<Rightarrow> string \<Rightarrow> int"
  toLowerCase :: "string \<Rightarrow> string"
  user_choice :: nat
  git_currentBranch :: "string option"

subsection \<open>The language and its library\<close>

text \<open>
  Truthiness of a value of type \<^verbatim>\<open>string | undefined\<close>: \<open>truthy s\<close> is the string when
  it is defined and not empty, and \<open>None\<close> when \<^verbatim>\<open>!s\<close> holds.
\<close>

fun truthy :: "string option \<Rightarrow> string option" where
  "truthy None = None"
| "truthy (Some []) = None"
| "truthy (Some (c # cs)) = Some (c # cs)"

text \<open>A value of type \<^verbatim>\<open>string | undefined\<close> inside a template literal.\<close>

fun template :: "string option \<Rightarrow> string" where
  "template None = ''undefined''"
| "template (Some s) = s"

text \<open>
  \<^verbatim>\<open>request\<close> of \<^verbatim>\<open>@octokit/request\<close>: its promise resolves to the response of the remote,
  and rejects when no answer arrives, when the status is 304, and when the status is 400
  or above. \<open>octokit_request w q\<close> is the response the promise resolves to, and \<open>None\<close>
  when it rejects.
\<close>

definition octokit_request :: "world \<Rightarrow> request \<Rightarrow> response option" where
  "octokit_request w q =
     (case http_answer w q of
        None \<Rightarrow> None
      | Some response \<Rightarrow>
          (if status response = 304 \<or> 400 \<le> status response then None else Some response))"

text \<open>Sequencing of two awaited calls: the second runs only when the first returned.\<close>

definition andThen ::
  "'a outcome \<times> event list \<Rightarrow> ('a \<Rightarrow> 'b outcome \<times> event list) \<Rightarrow> 'b outcome \<times> event list"
where
  "andThen m f =
     (case m of
        (Returned x, t) \<Rightarrow> (case f x of (r, t') \<Rightarrow> (r, t @ t'))
      | (Thrown e, t) \<Rightarrow> (Thrown e, t)
      | (Exited n, t) \<Rightarrow> (Exited n, t))"

text \<open>
  \<^verbatim>\<open>Array.prototype.sort\<close> with a comparison function. The sort of the runtime is stable;
  for a consistent comparison function its result is the one stable ordering of the
  array, which is what inserting the elements from the right computes. An element goes
  in front of the first element it does not compare greater than.
\<close>

fun place :: "('a \<Rightarrow> 'a \<Rightarrow> int) \<Rightarrow> 'a \<Rightarrow> 'a list \<Rightarrow> 'a list" where
  "place cmp a [] = [a]"
| "place cmp a (b # bs) = (if cmp a b \<le> 0 then a # b # bs else b # place cmp a bs)"

definition Array_sort :: "('a \<Rightarrow> 'a \<Rightarrow> int) \<Rightarrow> 'a list \<Rightarrow> 'a list" where
  "Array_sort cmp xs = foldr (place cmp) xs []"

text \<open>
  Modelled from the spec: \<^verbatim>\<open>filterAsync\<close> of \<^verbatim>\<open>../Utils\<close>, which is not among the sources.
  The check runs for all candidates and every one completes before the filtering; the
  candidates whose check holds are kept, in the order of the array.
\<close>

definition filterAsync :: "'a list \<Rightarrow> ('a \<Rightarrow> bool) \<Rightarrow> 'a list" where
  "filterAsync arr p = filter p arr"

text \<open>
  The list question of \<^verbatim>\<open>inquirer.prompt\<close>: it resolves to the \<^verbatim>\<open>value\<close> of the choice the
  user picks.
\<close>

definition inquirer_prompt ::
  "world \<Rightarrow> (string \<times> int) list \<Rightarrow> nat \<Rightarrow> int outcome \<times> event list"
where
  "inquirer_prompt w choices pageSize =
     (if user_choice w < length choices
      then (Returned (snd (choices ! user_choice w)), [Prompt choices pageSize])
      else (Thrown PromptAborted, [Prompt choices pageSize]))"

definition Git_getCurrentBranchNameAsync :: "world \<Rightarrow> string outcome \<times> event list" where
  "Git_getCurrentBranchNameAsync w =
     (case git_currentBranch w of
        None \<Rightarrow> (Thrown GitFailed, [GitCurrentBranch])
      | Some b \<Rightarrow> (Returned b, [GitCurrentBranch]))"


subsection \<open>The command\<close>

definition listing_request :: request where
  "listing_request =
     \<lparr>route = ''GET /repos/:owner/:repo/actions/workflows'',
      headers = [],
      params = [(''owner'', Str ''expo''), (''repo'', Str ''expo'')]\<rparr>"

text \<open>The three tests of the filter that come before the look at the file system.\<close>

definition candidate :: "workflow \<Rightarrow> bool" where
  "candidate workflow = (name workflow \<noteq> [] \<and> path workflow \<noteq> [] \<and> state workflow = ''active'')"

definition localPath :: "world \<Rightarrow> workflow \<Rightarrow> string" where
  "localPath w workflow = path_join w (EXPO_DIR w) (path workflow)"

definition eligible :: "world \<Rightarrow> workflow \<Rightarrow> bool" where
  "eligible w workflow =
     (name workflow \<noteq> [] \<and> path workflow \<noteq> [] \<and> state workflow = ''active'' \<and> fs_pathExists w (localPath w workflow))"

definition compareNames :: "world \<Rightarrow> workflow \<Rightarrow> workflow \<Rightarrow> int" where
  "compareNames w a b = localeCompare w (name a) (name b)"

text \<open>
  \<^verbatim>\<open>getWorkflowsAsync\<close>. The conjunction of the filter stops at its first false test, so
  the file system is asked about a candidate only after the three tests before it held.
\<close>

definition getWorkflowsAsync :: "world \<Rightarrow> workflow list outcome \<times> event list" where
  "getWorkflowsAsync w =
     (case octokit_request w listing_request of
        None \<Rightarrow> (Thrown RequestFailed, [Request listing_request])
      | Some response \<Rightarrow>
          (Returned (Array_sort (compareNames w) (filterAsync (data_workflows response) (eligible w))),
           Request listing_request #
             map (\<lambda>workflow. PathExists (localPath w workflow)) (filter candidate (data_workflows response))))"

definition promptWorkflowIdAsync :: "world \<Rightarrow> workflow list \<Rightarrow> int outcome \<times> event list" where
  "promptWorkflowIdAsync w workflows =
     inquirer_prompt w (map (\<lambda>workflow. (name workflow, id' workflow)) workflows) (length workflows)"

definition matches :: "world \<Rightarrow> string \<Rightarrow> workflow \<Rightarrow> bool" where
  "matches w slug workflow =
     (toLowerCase w (name workflow) = slug \<or>
      toLowerCase w (path workflow) = ''.github/workflows/'' @ slug @ ''.yml'')"

definition findWorkflowIdAsync ::
  "world \<Rightarrow> workflow list \<Rightarrow> string option \<Rightarrow> int option outcome \<times> event list"
where
  "findWorkflowIdAsync w workflows workflowName =
     (case truthy workflowName of
        None \<Rightarrow>
          (if truthy (env_CI w) \<noteq> None then (Thrown MissingWorkflowName, [])
           else andThen (promptWorkflowIdAsync w workflows) (\<lambda>i. (Returned (Some i), [])))
      | Some n \<Rightarrow>
          (let slug = toLowerCase w n
           in (Returned (map_option id' (find (matches w slug) workflows)), [])))"

definition dispatch_request :: "string option \<Rightarrow> int \<Rightarrow> string \<Rightarrow> request" where
  "dispatch_request token workflowId r =
     \<lparr>route = ''POST /repos/:owner/:repo/actions/workflows/:workflow_id/dispatches'',
      headers = [(''authorization'', ''token '' @ template token)],
      params = [(''owner'', Str ''expo''), (''repo'', Str ''expo''),
                (''workflow_id'', Num workflowId), (''ref'', Str r)]\<rparr>"

definition dispatchWorkflowAsync :: "world \<Rightarrow> int \<Rightarrow> string \<Rightarrow> unit outcome \<times> event list" where
  "dispatchWorkflowAsync w workflowId r =
     (let req = dispatch_request (env_GITHUB_TOKEN w) workflowId r
      in case octokit_request w req of
           None \<Rightarrow> (Thrown RequestFailed, [Request req])
         | Some response \<Rightarrow>
             (if status response \<noteq> 204
              then (Exited 1, [Request req, LoggerError response])
              else (Returned (), [Request req, LoggerSuccess])))"

text \<open>\<^verbatim>\<open>options.ref || (await Git.getCurrentBranchNameAsync())\<close>\<close>

definition resolveRef :: "world \<Rightarrow> CommandOptions \<Rightarrow> string outcome \<times> event list" where
  "resolveRef w options =
     (case truthy (ref options) of
        Some r \<Rightarrow> (Returned r, [])
      | None \<Rightarrow> Git_getCurrentBranchNameAsync w)"

text \<open>
  \<^verbatim>\<open>!workflowId || !workflows.some((workflow) => workflow.id === workflowId)\<close>: the
  identifier is \<^verbatim>\<open>null\<close> or the number 0, or no workflow of the list has it.
\<close>

definition workflows_some :: "workflow list \<Rightarrow> int \<Rightarrow> bool" where
  "workflows_some workflows i = list_ex (\<lambda>workflow. id' workflow = i) workflows"

definition main :: "world \<Rightarrow> string option \<Rightarrow> CommandOptions \<Rightarrow> unit outcome \<times> event list" where
  "main w workflowName options =
     (if truthy (env_GITHUB_TOKEN w) = None then (Thrown MissingToken, [])
      else
        andThen (getWorkflowsAsync w) (\<lambda>workflows.
        andThen (findWorkflowIdAsync w workflows workflowName) (\<lambda>workflowId.
        andThen (resolveRef w options) (\<lambda>r.
          (case workflowId of
             None \<Rightarrow> (Thrown (WorkflowNotFound workflowId), [])
           | Some i \<Rightarrow>
               (if i = 0 \<or> \<not> workflows_some workflows i
                then (Thrown (WorkflowNotFound workflowId), [])
                else dispatchWorkflowAsync w i r))))))"

subsection \<open>Reading a trace\<close>

fun is_prompt :: "event \<Rightarrow> bool" where
  "is_prompt (Prompt cs n) = True"
| "is_prompt e = False"

fun is_dispatch :: "event \<Rightarrow> bool" where
  "is_dispatch (Request q) =
     (route q = ''POST /repos/:owner/:repo/actions/workflows/:workflow_id/dispatches'')"
| "is_dispatch e = False"

fun is_log :: "event \<Rightarrow> bool" where
  "is_log (LoggerError r) = True"
| "is_log LoggerSuccess = True"
| "is_log e = False"

fun requests :: "event list \<Rightarrow> request list" where
  "requests [] = []"
| "requests (Request q # es) = q # requests es"
| "requests (e # es) = requests es"

text \<open>A request without its \<^verbatim>\<open>authorization\<close> header.\<close>

definition erase_authorization :: "request \<Rightarrow> request" where
  "erase_authorization q = q\<lparr>headers := filter (\<lambda>h. fst h \<noteq> ''authorization'') (headers q)\<rparr>"

text \<open>An effect with the \<^verbatim>\<open>authorization\<close> header removed from its request, if it is one.\<close>

fun erase_event :: "event \<Rightarrow> event" where
  "erase_event (Request q) = Request (erase_authorization q)"
| "erase_event e = e"

text \<open>
  The dispatch a run is heading for once the token is there: the identifier and the
  reference it will send, when the listing, the resolution and the reference all
  return and the identifier passes the test of the command.
\<close>

definition planned :: "world \<Rightarrow> string option \<Rightarrow> CommandOptions \<Rightarrow> (int \<times> string) option" where
  "planned w n options =
     (case getWorkflowsAsync w of
        (Returned workflows, t1) \<Rightarrow>
          (case findWorkflowIdAsync w workflows n of
             (Returned (Some i), t2) \<Rightarrow>
               (case resolveRef w options of
                  (Returned r, t3) \<Rightarrow>
                    if i \<noteq> 0 \<and> workflows_some workflows i then Some (i, r) else None
                | _ \<Rightarrow> None)
           | _ \<Rightarrow> None)
      | _ \<Rightarrow> None)"

subsection \<open>The words of the specification\<close>

text \<open>
  Two strings are equal without regard to case when the runtime gives them the same
  lowercase form; the conventional path of a name is \<^verbatim>\<open>.github/workflows/<name>.yml\<close>.
  A workflow matches a name argument when its name equals the argument without regard
  to case, or the lowercase form of its path is the conventional path of the lowercase
  form of the argument.
\<close>

definition equalIgnoringCase :: "world \<Rightarrow> string \<Rightarrow> string \<Rightarrow> bool" where
  "equalIgnoringCase w a b = (toLowerCase w a = toLowerCase w b)"

definition conventionalPath :: "string \<Rightarrow> string" where
  "conventionalPath n = ''.github/workflows/'' @ n @ ''.yml''"

definition matchesNameOrPath :: "world \<Rightarrow> string \<Rightarrow> workflow \<Rightarrow> bool" where
  "matchesNameOrPath w n workflow =
     (equalIgnoringCase w (name workflow) n \<or>
      toLowerCase w (path workflow) = conventionalPath (toLowerCase w n))"

text \<open>
  A consistent comparison function, as the language standard asks of the argument of
  \<^verbatim>\<open>sort\<close>: \<open>a\<close> compares less than \<open>b\<close> exactly when \<open>b\<close> compares greater than \<open>a\<close>,
  and not comparing greater is transitive. The comparison of strings by the runtime is
  taken to be one.
\<close>

definition consistent :: "('a \<Rightarrow> 'a \<Rightarrow> int) \<Rightarrow> bool" where
  "consistent cmp =
     ((\<forall>a b. (cmp a b < 0) = (0 < cmp b a)) \<and>
      (\<forall>a b c. cmp a b \<le> 0 \<longrightarrow> cmp b c \<le> 0 \<longrightarrow> cmp a c \<le> 0))"

subsection \<open>A concrete world\<close>

text \<open>
  The scenario of the specification: the remote lists the workflows Test and Build (and
  one that is not active), all files exist, the token is set. The strings of this world
  are ASCII: they are compared byte by byte, and only the letters A to Z have a
  lowercase form of their own.
\<close>

definition lowerChar :: "char \<Rightarrow> char" where
  "lowerChar c =
     (let n = (of_char c :: nat) in if 65 \<le> n \<and> n \<le> 90 then char_of (n + 32) else c)"

definition asciiLowerCase :: "string \<Rightarrow> string" where
  "asciiLowerCase s = map lowerChar s"

fun compareStrings :: "string \<Rightarrow> string \<Rightarrow> int" where
  "compareStrings [] [] = 0"
| "compareStrings [] (b # bs) = - 1"
| "compareStrings (a # as) [] = 1"
| "compareStrings (a # as) (b # bs) =
     (if (of_char a :: nat) < of_char b then - 1
      else if (of_char b :: nat) < of_char a then 1
      else compareStrings as bs)"

definition buildWorkflow :: workflow where
  "buildWorkflow =
     \<lparr>id' = 1, name = ''Build'', path = ''.github/workflows/build.yml'', state = ''active''\<rparr>"

definition testWorkflow :: workflow where
  "testWorkflow =
     \<lparr>id' = 2, name = ''Test'', path = ''.github/workflows/test.yml'', state = ''active''\<rparr>"

definition oldWorkflow :: workflow where
  "oldWorkflow =
     \<lparr>id' = 3, name = ''Old'', path = ''.github/workflows/old.yml'',
      state = ''disabled_manually''\<rparr>"

definition exampleRemote :: "int \<Rightarrow> request \<Rightarrow> response option" where
  "exampleRemote s q =
     (if q = listing_request
      then Some \<lparr>status = 200, data_workflows = [testWorkflow, oldWorkflow, buildWorkflow]\<rparr>
      else Some \<lparr>status = s, data_workflows = []\<rparr>)"

definition exampleWorld :: world where
  "exampleWorld =
     \<lparr>env_GITHUB_TOKEN = Some ''secret'', env_CI = None,
      http_answer = exampleRemote 204,
      EXPO_DIR = ''/expo'', path_join = (\<lambda>a b. a @ ''/'' @ b),
      fs_pathExists = (\<lambda>p. True), localeCompare = compareStrings,
      toLowerCase = asciiLowerCase,
      user_choice = 1, git_currentBranch = Some ''main''\<rparr>"

section \<open>Properties\<close>

subsection \<open>Sequencing, sorting and the comparison of the concrete world\<close>

lemma andThen_Returned: "andThen (Returned x, t) f = (fst (f x), t @ snd (f x))"
  by (simp add: andThen_def split: prod.splits)

lemma andThen_Thrown: "andThen (Thrown e, t) f = (Thrown e, t)"
  by (simp add: andThen_def)

lemma andThen_Exited: "andThen (Exited n, t) f = (Exited n, t)"
  by (simp add: andThen_def)

lemma mset_place: "mset (place cmp a bs) = add_mset a (mset bs)"
  by (induction bs) auto

lemma mset_Array_sort: "mset (Array_sort cmp xs) = mset xs"
  by (induction xs) (auto simp: Array_sort_def mset_place)

lemma set_place: "set (place cmp a bs) = insert a (set bs)"
  by (induction bs) auto

lemma consistent_total: "consistent cmp \<Longrightarrow> 0 < cmp a b \<Longrightarrow> cmp b a \<le> 0"
  unfolding consistent_def by (metis less_le)

lemma consistent_trans: "consistent cmp \<Longrightarrow> cmp a b \<le> 0 \<Longrightarrow> cmp b c \<le> 0 \<Longrightarrow> cmp a c \<le> 0"
  unfolding consistent_def by blast

lemma consistent_refl: "consistent cmp \<Longrightarrow> cmp a a = 0"
  unfolding consistent_def by (metis less_le not_less)

lemma consistent_sym: "consistent cmp \<Longrightarrow> cmp a b = 0 \<Longrightarrow> cmp b a = 0"
  unfolding consistent_def by (metis less_le not_less)

lemma sorted_place:
  assumes "consistent cmp" and "sorted_wrt (\<lambda>x y. cmp x y \<le> 0) bs"
  shows "sorted_wrt (\<lambda>x y. cmp x y \<le> 0) (place cmp a bs)"
  using assms(2)
proof (induction bs)
  case Nil
  show ?case by simp
next
  case (Cons b bs)
  show ?case
  proof (cases "cmp a b \<le> 0")
    case True
    with Cons.prems assms(1) show ?thesis
      by (auto intro: consistent_trans)
  next
    case False
    then have "cmp b a \<le> 0"
      using assms(1) consistent_total [of cmp a b] by simp
    with False Cons show ?thesis
      by (auto simp: set_place)
  qed
qed

lemma sorted_Array_sort:
  "consistent cmp \<Longrightarrow> sorted_wrt (\<lambda>x y. cmp x y \<le> 0) (Array_sort cmp xs)"
  by (induction xs) (auto simp: Array_sort_def sorted_place)

lemma filter_place:
  assumes "\<And>x y. P x \<Longrightarrow> P y \<Longrightarrow> cmp x y \<le> 0"
  shows "filter P (place cmp a bs) = (if P a then a # filter P bs else filter P bs)"
  using assms by (induction bs) auto

lemma filter_Array_sort:
  assumes "\<And>x y. P x \<Longrightarrow> P y \<Longrightarrow> cmp x y \<le> 0"
  shows "filter P (Array_sort cmp xs) = filter P xs"
proof (induction xs)
  case Nil
  show ?case by (simp add: Array_sort_def)
next
  case (Cons x xs)
  have "filter P (place cmp x (Array_sort cmp xs)) =
        (if P x then x # filter P (Array_sort cmp xs) else filter P (Array_sort cmp xs))"
    using assms by (rule filter_place)
  with Cons show ?case by (simp add: Array_sort_def)
qed

lemma compareStrings_flip: "(compareStrings a b < 0) = (0 < compareStrings b a)"
  by (induction a b rule: compareStrings.induct) auto

lemma compareStrings_trans:
  "compareStrings a b \<le> 0 \<Longrightarrow> compareStrings b c \<le> 0 \<Longrightarrow> compareStrings a c \<le> 0"
proof (induction a arbitrary: b c)
  case Nil
  then show ?case by (cases c) auto
next
  case (Cons x xs)
  show ?case
  proof (cases b)
    case Nil
    with Cons.prems show ?thesis by simp
  next
    case b: (Cons y ys)
    show ?thesis
    proof (cases c)
      case Nil
      with Cons.prems b show ?thesis by simp
    next
      case c: (Cons z zs)
      with Cons.prems b Cons.IH [of ys zs] show ?thesis
        by (auto split: if_splits)
    qed
  qed
qed

lemma consistent_compareStrings: "consistent compareStrings"
  unfolding consistent_def using compareStrings_flip compareStrings_trans by blast

subsection \<open>Truthiness and matching\<close>

lemma truthy_nonempty: "n \<noteq> [] \<Longrightarrow> truthy (Some n) = Some n"
  by (cases n) simp_all

lemma matches_toLowerCase: "matches w (toLowerCase w n) workflow = matchesNameOrPath w n workflow"
  by (simp add: matches_def matchesNameOrPath_def equalIgnoringCase_def conventionalPath_def)

subsection \<open>The traces of the steps\<close>

lemma getWorkflowsAsync_quiet:
  "ev \<in> set (snd (getWorkflowsAsync w)) \<Longrightarrow>
     \<not> is_dispatch ev \<and> \<not> is_log ev \<and> \<not> is_prompt ev \<and> ev \<noteq> GitCurrentBranch"
  by (auto simp: getWorkflowsAsync_def listing_request_def split: option.splits)

lemma getWorkflowsAsync_not_Exited: "fst (getWorkflowsAsync w) \<noteq> Exited k"
  by (simp add: getWorkflowsAsync_def split: option.splits)

lemma findWorkflowIdAsync_quiet:
  "ev \<in> set (snd (findWorkflowIdAsync w workflows n)) \<Longrightarrow>
     \<not> is_dispatch ev \<and> \<not> is_log ev \<and> ev \<noteq> GitCurrentBranch"
  by (auto simp: findWorkflowIdAsync_def promptWorkflowIdAsync_def inquirer_prompt_def
        andThen_def Let_def split: option.splits if_splits)

lemma findWorkflowIdAsync_not_Exited: "fst (findWorkflowIdAsync w workflows n) \<noteq> Exited k"
  by (auto simp: findWorkflowIdAsync_def promptWorkflowIdAsync_def inquirer_prompt_def
        andThen_def Let_def split: option.splits if_splits)

lemma resolveRef_quiet: "ev \<in> set (snd (resolveRef w options)) \<Longrightarrow> ev = GitCurrentBranch"
  by (auto simp: resolveRef_def Git_getCurrentBranchNameAsync_def split: option.splits)

lemma resolveRef_not_Exited: "fst (resolveRef w options) \<noteq> Exited k"
  by (auto simp: resolveRef_def Git_getCurrentBranchNameAsync_def split: option.splits)

lemma resolveRef_Thrown: "fst (resolveRef w options) = Thrown e \<Longrightarrow> e = GitFailed"
  by (auto simp: resolveRef_def Git_getCurrentBranchNameAsync_def split: option.splits)

text \<open>The command, step by step.\<close>

lemma main_listing_failed:
  assumes "truthy (env_GITHUB_TOKEN w) \<noteq> None" and "getWorkflowsAsync w = (Thrown e, t1)"
  shows "main w n options = (Thrown e, t1)"
  using assms by (auto simp: main_def andThen_Thrown)

lemma main_resolution_failed:
  assumes "truthy (env_GITHUB_TOKEN w) \<noteq> None"
    and "getWorkflowsAsync w = (Returned workflows, t1)"
    and "findWorkflowIdAsync w workflows n = (Thrown e, t2)"
  shows "main w n options = (Thrown e, t1 @ t2)"
  using assms by (auto simp: main_def andThen_Thrown andThen_Returned)

lemma main_ref_failed:
  assumes "truthy (env_GITHUB_TOKEN w) \<noteq> None"
    and "getWorkflowsAsync w = (Returned workflows, t1)"
    and "findWorkflowIdAsync w workflows n = (Returned workflowId, t2)"
    and "resolveRef w options = (Thrown e, t3)"
  shows "main w n options = (Thrown e, t1 @ t2 @ t3)"
  using assms by (auto simp: main_def andThen_Thrown andThen_Returned)

lemma main_not_found:
  assumes "truthy (env_GITHUB_TOKEN w) \<noteq> None"
    and "getWorkflowsAsync w = (Returned workflows, t1)"
    and "findWorkflowIdAsync w workflows n = (Returned workflowId, t2)"
    and "resolveRef w options = (Returned r, t3)"
    and "workflowId = None \<or> workflowId = Some 0 \<or> (\<exists>i. workflowId = Some i \<and> \<not> workflows_some workflows i)"
  shows "main w n options = (Thrown (WorkflowNotFound workflowId), t1 @ t2 @ t3)"
  using assms by (auto simp: main_def andThen_Returned)

lemma main_dispatches:
  assumes "truthy (env_GITHUB_TOKEN w) \<noteq> None"
    and "getWorkflowsAsync w = (Returned workflows, t1)"
    and "findWorkflowIdAsync w workflows n = (Returned (Some i), t2)"
    and "resolveRef w options = (Returned r, t3)"
    and "i \<noteq> 0" and "workflows_some workflows i"
  shows "main w n options =
     (fst (dispatchWorkflowAsync w i r), t1 @ t2 @ t3 @ snd (dispatchWorkflowAsync w i r))"
  using assms by (auto simp: main_def andThen_Returned)

text \<open>
  Every run of the command is one of six: no token; the listing fails; the resolution
  fails; the reference fails; the workflow is not found; the dispatch runs.
\<close>

lemma main_cases [case_names no_token listing_failed resolution_failed ref_failed not_found dispatched]:
  obtains
    "truthy (env_GITHUB_TOKEN w) = None" and "main w n options = (Thrown MissingToken, [])"
  | e t1 where "truthy (env_GITHUB_TOKEN w) \<noteq> None"
      and "getWorkflowsAsync w = (Thrown e, t1)"
      and "main w n options = (Thrown e, t1)"
  | workflows t1 e t2 where "truthy (env_GITHUB_TOKEN w) \<noteq> None"
      and "getWorkflowsAsync w = (Returned workflows, t1)"
      and "findWorkflowIdAsync w workflows n = (Thrown e, t2)"
      and "main w n options = (Thrown e, t1 @ t2)"
  | workflows t1 workflowId t2 e t3 where "truthy (env_GITHUB_TOKEN w) \<noteq> None"
      and "getWorkflowsAsync w = (Returned workflows, t1)"
      and "findWorkflowIdAsync w workflows n = (Returned workflowId, t2)"
      and "resolveRef w options = (Thrown e, t3)"
      and "main w n options = (Thrown e, t1 @ t2 @ t3)"
  | workflows t1 workflowId t2 r t3 where "truthy (env_GITHUB_TOKEN w) \<noteq> None"
      and "getWorkflowsAsync w = (Returned workflows, t1)"
      and "findWorkflowIdAsync w workflows n = (Returned workflowId, t2)"
      and "resolveRef w options = (Returned r, t3)"
      and "workflowId = None \<or> workflowId = Some 0 \<or>
           (\<exists>i. workflowId = Some i \<and> \<not> workflows_some workflows i)"
      and "main w n options = (Thrown (WorkflowNotFound workflowId), t1 @ t2 @ t3)"
  | workflows t1 i t2 r t3 where "truthy (env_GITHUB_TOKEN w) \<noteq> None"
      and "getWorkflowsAsync w = (Returned workflows, t1)"
      and "findWorkflowIdAsync w workflows n = (Returned (Some i), t2)"
      and "resolveRef w options = (Returned r, t3)"
      and "i \<noteq> 0" and "workflows_some workflows i"
      and "main w n options =
            (fst (dispatchWorkflowAsync w i r), t1 @ t2 @ t3 @ snd (dispatchWorkflowAsync w i r))"
proof (cases "truthy (env_GITHUB_TOKEN w) = None")
  case True
  then show ?thesis using that(1) by (simp add: main_def)
next
  case token: False
  obtain g t1 where g: "getWorkflowsAsync w = (g, t1)" by (cases "getWorkflowsAsync w")
  show ?thesis
  proof (cases g)
    case (Thrown e)
    with token g show ?thesis using that(2) by (simp add: main_listing_failed)
  next
    case (Exited k)
    with g getWorkflowsAsync_not_Exited [of w k] show ?thesis by simp
  next
    case (Returned workflows)
    obtain f t2 where f: "findWorkflowIdAsync w workflows n = (f, t2)"
      by (cases "findWorkflowIdAsync w workflows n")
    show ?thesis
    proof (cases f)
      case (Thrown e)
      with token g Returned f show ?thesis using that(3) by (simp add: main_resolution_failed)
    next
      case (Exited k)
      with f findWorkflowIdAsync_not_Exited [of w workflows n k] show ?thesis by simp
    next
      case found: (Returned workflowId)
      obtain b t3 where b: "resolveRef w options = (b, t3)" by (cases "resolveRef w options")
      show ?thesis
      proof (cases b)
        case (Thrown e)
        with token g Returned f found b show ?thesis using that(4)
          by (simp add: main_ref_failed)
      next
        case (Exited k)
        with b resolveRef_not_Exited [of w options k] show ?thesis by simp
      next
        case branch: (Returned r)
        show ?thesis
        proof (cases "workflowId = None \<or> workflowId = Some 0 \<or>
                      (\<exists>i. workflowId = Some i \<and> \<not> workflows_some workflows i)")
          case True
          with token g Returned f found b branch show ?thesis using that(5)
            by (simp add: main_not_found)
        next
          case False
          then obtain i where i: "workflowId = Some i" "i \<noteq> 0" "workflows_some workflows i"
            by (cases workflowId) auto
          with token g Returned f found b branch show ?thesis using that(6)
            by (simp add: main_dispatches)
        qed
      qed
    qed
  qed
qed

lemma requests_append: "requests (a @ b) = requests a @ requests b"
  by (induction a rule: requests.induct) simp_all

lemma requests_PathExists: "requests (map (\<lambda>x. PathExists (f x)) xs) = []"
  by (induction xs) simp_all

lemma requests_getWorkflowsAsync: "requests (snd (getWorkflowsAsync w)) = [listing_request]"
  by (simp add: getWorkflowsAsync_def requests_PathExists split: option.splits)

lemma requests_findWorkflowIdAsync: "requests (snd (findWorkflowIdAsync w workflows n)) = []"
  by (auto simp: findWorkflowIdAsync_def promptWorkflowIdAsync_def inquirer_prompt_def
        andThen_def Let_def split: option.splits if_splits)

lemma requests_resolveRef: "requests (snd (resolveRef w options)) = []"
  by (auto simp: resolveRef_def Git_getCurrentBranchNameAsync_def split: option.splits)

lemma requests_dispatchWorkflowAsync:
  "requests (snd (dispatchWorkflowAsync w i r)) = [dispatch_request (env_GITHUB_TOKEN w) i r]"
  by (simp add: dispatchWorkflowAsync_def Let_def split: option.splits)

text \<open>The requests of a run, in closed form.\<close>

lemma requests_main:
  "requests (snd (main w n options)) =
     (if truthy (env_GITHUB_TOKEN w) = None then []
      else listing_request #
        (case planned w n options of
           None \<Rightarrow> []
         | Some (i, r) \<Rightarrow> [dispatch_request (env_GITHUB_TOKEN w) i r]))"
proof (cases rule: main_cases [of w n options])
  case no_token
  then show ?thesis by simp
next
  case (listing_failed e t1)
  with requests_getWorkflowsAsync [of w] show ?thesis
    by (simp add: planned_def)
next
  case (resolution_failed workflows t1 e t2)
  with requests_getWorkflowsAsync [of w] requests_findWorkflowIdAsync [of w workflows n]
  show ?thesis
    by (simp add: planned_def requests_append)
next
  case (ref_failed workflows t1 workflowId t2 e t3)
  with requests_getWorkflowsAsync [of w] requests_findWorkflowIdAsync [of w workflows n]
    requests_resolveRef [of w options]
  show ?thesis
    by (simp add: planned_def requests_append split: option.splits)
next
  case (not_found workflows t1 workflowId t2 r t3)
  with requests_getWorkflowsAsync [of w] requests_findWorkflowIdAsync [of w workflows n]
    requests_resolveRef [of w options]
  show ?thesis
    by (auto simp: planned_def requests_append split: option.splits)
next
  case (dispatched workflows t1 i t2 r t3)
  with requests_getWorkflowsAsync [of w] requests_findWorkflowIdAsync [of w workflows n]
    requests_resolveRef [of w options] requests_dispatchWorkflowAsync [of w i r]
  show ?thesis
    by (simp add: planned_def requests_append)
qed


lemma dispatchWorkflowAsync_request:
  "Request q \<in> set (snd (dispatchWorkflowAsync w i r)) \<Longrightarrow>
     q = dispatch_request (env_GITHUB_TOKEN w) i r"
  by (auto simp: dispatchWorkflowAsync_def Let_def split: option.splits if_splits)


lemma findWorkflowIdAsync_on_CI:
  assumes "truthy workflowName = None" and "truthy (env_CI w) \<noteq> None"
  shows "findWorkflowIdAsync w workflows workflowName = (Thrown MissingWorkflowName, [])"
  using assms by (auto simp: findWorkflowIdAsync_def)

lemma getWorkflowsAsync_failed:
  "octokit_request w listing_request = None \<Longrightarrow>
     getWorkflowsAsync w = (Thrown RequestFailed, [Request listing_request])"
  by (simp add: getWorkflowsAsync_def)

lemma getWorkflowsAsync_answered:
  "octokit_request w listing_request = Some response \<Longrightarrow>
     \<exists>workflows checks. getWorkflowsAsync w = (Returned workflows, Request listing_request # checks) \<and>
        (\<forall>ev\<in>set checks. \<exists>p. ev = PathExists p)"
  by (auto simp: getWorkflowsAsync_def)

lemma resolveRef_explicit:
  "ref options = Some r \<Longrightarrow> r \<noteq> [] \<Longrightarrow> resolveRef w options = (Returned r, [])"
  by (simp add: resolveRef_def truthy_nonempty)

lemma dispatchWorkflowAsync_no_branch_query:
  "GitCurrentBranch \<notin> set (snd (dispatchWorkflowAsync w i r))"
  by (simp add: dispatchWorkflowAsync_def Let_def split: option.splits)

lemma ref_of_dispatch_request:
  "map_of (params (dispatch_request token i r)) ''ref'' = Some (Str r)"
  by (simp add: dispatch_request_def)

subsection \<open>Runs that differ in the token\<close>

lemma eligible_token: "eligible (w\<lparr>env_GITHUB_TOKEN := x\<rparr>) = eligible w"
  by (rule ext) (simp add: eligible_def localPath_def)

lemma compareNames_token: "compareNames (w\<lparr>env_GITHUB_TOKEN := x\<rparr>) = compareNames w"
  by (rule ext, rule ext) (simp add: compareNames_def)

lemma octokit_request_token: "octokit_request (w\<lparr>env_GITHUB_TOKEN := x\<rparr>) = octokit_request w"
  by (rule ext) (simp add: octokit_request_def)

lemma matches_token: "matches (w\<lparr>env_GITHUB_TOKEN := x\<rparr>) = matches w"
  by (rule ext, rule ext) (simp add: matches_def)

lemma getWorkflowsAsync_token:
  "getWorkflowsAsync (w\<lparr>env_GITHUB_TOKEN := x\<rparr>) = getWorkflowsAsync w"
  by (simp add: getWorkflowsAsync_def eligible_token compareNames_token localPath_def
        octokit_request_token cong: option.case_cong)

lemma findWorkflowIdAsync_token:
  "findWorkflowIdAsync (w\<lparr>env_GITHUB_TOKEN := x\<rparr>) workflows n = findWorkflowIdAsync w workflows n"
  by (simp add: findWorkflowIdAsync_def promptWorkflowIdAsync_def inquirer_prompt_def
        matches_token cong: option.case_cong if_cong)

lemma resolveRef_token: "resolveRef (w\<lparr>env_GITHUB_TOKEN := x\<rparr>) options = resolveRef w options"
  by (simp add: resolveRef_def Git_getCurrentBranchNameAsync_def cong: option.case_cong)

lemma planned_token: "planned (w\<lparr>env_GITHUB_TOKEN := x\<rparr>) n options = planned w n options"
  by (simp add: planned_def getWorkflowsAsync_token findWorkflowIdAsync_token resolveRef_token
        cong: prod.case_cong outcome.case_cong option.case_cong)

lemma erase_dispatch_request:
  "erase_authorization (dispatch_request token i r) = erase_authorization (dispatch_request token' i r)"
  by (simp add: erase_authorization_def dispatch_request_def)

lemma is_dispatch_dispatch_request: "is_dispatch (Request (dispatch_request token i r))"
  by (simp add: dispatch_request_def)

lemma not_dispatch_listing_request: "\<not> is_dispatch (Request listing_request)"
  by (simp add: listing_request_def)

lemma unlogged_dispatchWorkflowAsync:
  "filter (\<lambda>ev. \<not> is_log ev) (snd (dispatchWorkflowAsync w i r)) =
     [Request (dispatch_request (env_GITHUB_TOKEN w) i r)]"
  by (simp add: dispatchWorkflowAsync_def Let_def split: option.splits)

lemma unlogged_quiet: "\<forall>ev\<in>set t. \<not> is_log ev \<Longrightarrow> filter (\<lambda>ev. \<not> is_log ev) t = t"
  by (induction t) simp_all

lemma truthy_token: "x \<noteq> [] \<Longrightarrow> truthy (env_GITHUB_TOKEN (w\<lparr>env_GITHUB_TOKEN := Some x\<rparr>)) \<noteq> None"
  by (simp add: truthy_nonempty)

text \<open>
  Two runs that differ in the token only have the same effects up to the answer to the
  dispatch request, but for the \<^verbatim>\<open>authorization\<close> header.
\<close>

lemma main_token_effects:
  assumes "x1 \<noteq> []" and "x2 \<noteq> []"
  shows "map erase_event (filter (\<lambda>ev. \<not> is_log ev)
            (snd (main (w\<lparr>env_GITHUB_TOKEN := Some x1\<rparr>) n options))) =
         map erase_event (filter (\<lambda>ev. \<not> is_log ev)
            (snd (main (w\<lparr>env_GITHUB_TOKEN := Some x2\<rparr>) n options)))"
proof -
  let ?w1 = "w\<lparr>env_GITHUB_TOKEN := Some x1\<rparr>"
  let ?w2 = "w\<lparr>env_GITHUB_TOKEN := Some x2\<rparr>"
  have token2: "truthy (env_GITHUB_TOKEN ?w2) \<noteq> None"
    using assms(2) by (rule truthy_token)
  show ?thesis
  proof (cases rule: main_cases [of ?w1 n options])
    case no_token
    with truthy_token [OF assms(1), of w] show ?thesis by simp
  next
    case (listing_failed e t1)
    from listing_failed(2) have "getWorkflowsAsync ?w2 = (Thrown e, t1)"
      by (simp add: getWorkflowsAsync_token)
    with token2 have "main ?w2 n options = (Thrown e, t1)"
      by (rule main_listing_failed)
    with listing_failed(3) show ?thesis by simp
  next
    case (resolution_failed workflows t1 e t2)
    from resolution_failed(2,3)
    have "getWorkflowsAsync ?w2 = (Returned workflows, t1)"
      and "findWorkflowIdAsync ?w2 workflows n = (Thrown e, t2)"
      by (simp_all add: getWorkflowsAsync_token findWorkflowIdAsync_token)
    with token2 have "main ?w2 n options = (Thrown e, t1 @ t2)"
      by (rule main_resolution_failed)
    with resolution_failed(4) show ?thesis by simp
  next
    case (ref_failed workflows t1 workflowId t2 e t3)
    from ref_failed(2-4)
    have "getWorkflowsAsync ?w2 = (Returned workflows, t1)"
      and "findWorkflowIdAsync ?w2 workflows n = (Returned workflowId, t2)"
      and "resolveRef ?w2 options = (Thrown e, t3)"
      by (simp_all add: getWorkflowsAsync_token findWorkflowIdAsync_token resolveRef_token)
    with token2 have "main ?w2 n options = (Thrown e, t1 @ t2 @ t3)"
      by (rule main_ref_failed)
    with ref_failed(5) show ?thesis by simp
  next
    case (not_found workflows t1 workflowId t2 r t3)
    from not_found(2-4)
    have "getWorkflowsAsync ?w2 = (Returned workflows, t1)"
      and "findWorkflowIdAsync ?w2 workflows n = (Returned workflowId, t2)"
      and "resolveRef ?w2 options = (Returned r, t3)"
      by (simp_all add: getWorkflowsAsync_token findWorkflowIdAsync_token resolveRef_token)
    with token2 have "main ?w2 n options = (Thrown (WorkflowNotFound workflowId), t1 @ t2 @ t3)"
      using not_found(5) by (rule main_not_found)
    with not_found(6) show ?thesis by simp
  next
    case (dispatched workflows t1 i t2 r t3)
    from dispatched(2-4)
    have "getWorkflowsAsync ?w2 = (Returned workflows, t1)"
      and "findWorkflowIdAsync ?w2 workflows n = (Returned (Some i), t2)"
      and "resolveRef ?w2 options = (Returned r, t3)"
      by (simp_all add: getWorkflowsAsync_token findWorkflowIdAsync_token resolveRef_token)
    with token2 have "main ?w2 n options =
        (fst (dispatchWorkflowAsync ?w2 i r), t1 @ t2 @ t3 @ snd (dispatchWorkflowAsync ?w2 i r))"
      using dispatched(5,6) by (rule main_dispatches)
    with dispatched(7) show ?thesis
      using erase_dispatch_request [of "Some x1" i r "Some x2"]
      by (simp add: unlogged_dispatchWorkflowAsync)
  qed
qed

subsection \<open>The concrete world\<close>

lemma exampleWorld_listing:
  "octokit_request exampleWorld listing_request =
     Some \<lparr>status = 200, data_workflows = [testWorkflow, oldWorkflow, buildWorkflow]\<rparr>"
  by (simp add: octokit_request_def exampleWorld_def exampleRemote_def)

lemma exampleWorld_listed:
  "fst (getWorkflowsAsync exampleWorld) = Returned [buildWorkflow, testWorkflow]"
  by code_simp

lemma exampleWorld_listed_trace:
  "getWorkflowsAsync exampleWorld =
     (Returned [buildWorkflow, testWorkflow],
      [Request listing_request, PathExists ''/expo/.github/workflows/test.yml'',
       PathExists ''/expo/.github/workflows/build.yml''])"
  by code_simp

subsection \<open>The claims\<close>

text \<open>
  C4. When the environment variable \<^verbatim>\<open>GITHUB_TOKEN\<close> is absent, the command throws the
  configuration error at once: the call ends with the error and with no effect at all,
  so neither the listing request nor the dispatch request is made.
\<close>

theorem main_without_token:
  "env_GITHUB_TOKEN w = None \<Longrightarrow> main w workflowName options = (Thrown MissingToken, [])"
  by (simp add: main_def)

theorem main_without_token_witness:
  "env_GITHUB_TOKEN (exampleWorld\<lparr>env_GITHUB_TOKEN := None\<rparr>) = None \<and>
   main (exampleWorld\<lparr>env_GITHUB_TOKEN := None\<rparr>) (Some ''test'') \<lparr>ref = None\<rparr> =
     (Thrown MissingToken, [])"
  using main_without_token [of "exampleWorld\<lparr>env_GITHUB_TOKEN := None\<rparr>" "Some ''test''" "\<lparr>ref = None\<rparr>"]
  by simp

text \<open>
  C2. Whenever the listing request resolves to a response, the listing operation returns, and every
  workflow of the list it returns has a name and a path that are not empty, the state
  \<^verbatim>\<open>active\<close>, and a path that exists under the local checkout; every candidate of the
  answer that fails one of the four conditions is absent from the list. The list holds
  exactly the candidates that pass all four, as often as the answer holds them.
\<close>

theorem getWorkflowsAsync_eligible:
  assumes "octokit_request w listing_request = Some r"
  shows "\<exists>workflows t. getWorkflowsAsync w = (Returned workflows, t) \<and>
     (\<forall>x\<in>set workflows. name x \<noteq> [] \<and> path x \<noteq> [] \<and> state x = ''active'' \<and>
        fs_pathExists w (path_join w (EXPO_DIR w) (path x))) \<and>
     (\<forall>c\<in>set (data_workflows r).
        name c = [] \<or> path c = [] \<or> state c \<noteq> ''active'' \<or>
        \<not> fs_pathExists w (path_join w (EXPO_DIR w) (path c)) \<longrightarrow> c \<notin> set workflows) \<and>
     mset workflows = mset (filter (eligible w) (data_workflows r))"
proof -
  let ?ws = "Array_sort (compareNames w) (filterAsync (data_workflows r) (eligible w))"
  have run: "fst (getWorkflowsAsync w) = Returned ?ws"
    using assms by (simp add: getWorkflowsAsync_def)
  have m: "mset ?ws = mset (filter (eligible w) (data_workflows r))"
    by (simp add: mset_Array_sort filterAsync_def)
  then have s: "set ?ws = {c \<in> set (data_workflows r). eligible w c}"
    by (metis set_filter set_mset_mset)
  have "\<forall>x\<in>set ?ws. name x \<noteq> [] \<and> path x \<noteq> [] \<and> state x = ''active'' \<and>
        fs_pathExists w (path_join w (EXPO_DIR w) (path x))"
    using s by (simp add: eligible_def localPath_def)
  moreover have "\<forall>c\<in>set (data_workflows r).
        name c = [] \<or> path c = [] \<or> state c \<noteq> ''active'' \<or>
        \<not> fs_pathExists w (path_join w (EXPO_DIR w) (path c)) \<longrightarrow> c \<notin> set ?ws"
    using s by (auto simp: eligible_def localPath_def)
  ultimately show ?thesis
    using run m by (metis prod.collapse)
qed

theorem getWorkflowsAsync_eligible_witness:
  "octokit_request exampleWorld listing_request =
     Some \<lparr>status = 200, data_workflows = [testWorkflow, oldWorkflow, buildWorkflow]\<rparr> \<and>
   (\<exists>workflows t. getWorkflowsAsync exampleWorld = (Returned workflows, t) \<and>
      oldWorkflow \<notin> set workflows \<and>
      (\<forall>x\<in>set workflows. state x = ''active''))"
proof -
  have st: "state oldWorkflow \<noteq> ''active''"
    by (simp add: oldWorkflow_def)
  from getWorkflowsAsync_eligible [OF exampleWorld_listing]
  obtain workflows t where run: "getWorkflowsAsync exampleWorld = (Returned workflows, t)"
    and inc: "\<forall>x\<in>set workflows. name x \<noteq> [] \<and> path x \<noteq> [] \<and> state x = ''active'' \<and>
        fs_pathExists exampleWorld (path_join exampleWorld (EXPO_DIR exampleWorld) (path x))"
    by blast
  from inc st have "oldWorkflow \<notin> set workflows" by blast
  with run inc
  have "\<exists>workflows t. getWorkflowsAsync exampleWorld = (Returned workflows, t) \<and>
      oldWorkflow \<notin> set workflows \<and> (\<forall>x\<in>set workflows. state x = ''active'')"
    by blast
  with exampleWorld_listing show ?thesis by (rule conjI)
qed

text \<open>
  C7. Whenever the listing request resolves to a response and the comparison of strings by the
  runtime is consistent, the list the listing operation returns is in ascending order
  of the names under that comparison; the sort is stable: the workflows of one name, and
  more generally the workflows whose names compare equal, stand in the order the
  filtered answer had them; and the order is total: of any two entries one does not
  compare greater than the other.
\<close>

theorem getWorkflowsAsync_sorted:
  assumes "consistent (localeCompare w)"
    and "octokit_request w listing_request = Some r"
  shows "\<exists>workflows t. getWorkflowsAsync w = (Returned workflows, t) \<and>
     sorted_wrt (\<lambda>a b. localeCompare w (name a) (name b) \<le> 0) workflows \<and>
     (\<forall>k. filter (\<lambda>x. name x = k) workflows =
          filter (\<lambda>x. name x = k) (filter (eligible w) (data_workflows r))) \<and>
     (\<forall>k. filter (\<lambda>x. localeCompare w (name x) k = 0) workflows =
          filter (\<lambda>x. localeCompare w (name x) k = 0) (filter (eligible w) (data_workflows r))) \<and>
     (\<forall>a b. compareNames w a b \<le> 0 \<or> compareNames w b a \<le> 0)"
proof -
  let ?cmp = "compareNames w"
  let ?el = "filter (eligible w) (data_workflows r)"
  let ?ws = "Array_sort ?cmp ?el"
  have c: "consistent ?cmp"
    using assms(1) unfolding consistent_def compareNames_def by blast
  have run: "fst (getWorkflowsAsync w) = Returned ?ws"
    using assms(2) by (simp add: getWorkflowsAsync_def filterAsync_def)
  have "sorted_wrt (\<lambda>a b. ?cmp a b \<le> 0) ?ws"
    using c by (rule sorted_Array_sort)
  then have srt: "sorted_wrt (\<lambda>a b. localeCompare w (name a) (name b) \<le> 0) ?ws"
    by (simp add: compareNames_def)
  have same: "filter (\<lambda>x. name x = k) ?ws = filter (\<lambda>x. name x = k) ?el" for k
    by (rule filter_Array_sort)
       (simp add: compareNames_def consistent_refl [OF assms(1)])
  have equal: "filter (\<lambda>x. localeCompare w (name x) k = 0) ?ws =
               filter (\<lambda>x. localeCompare w (name x) k = 0) ?el" for k
  proof (rule filter_Array_sort)
    fix x y :: workflow
    assume "localeCompare w (name x) k = 0" and "localeCompare w (name y) k = 0"
    then have "localeCompare w (name x) k \<le> 0" and "localeCompare w k (name y) \<le> 0"
      using consistent_sym [OF assms(1)] by simp_all
    then show "compareNames w x y \<le> 0"
      unfolding compareNames_def by (rule consistent_trans [OF assms(1)])
  qed
  have total: "compareNames w a b \<le> 0 \<or> compareNames w b a \<le> 0" for a b
    using consistent_total [OF c, of a b] by linarith
  show ?thesis
    using run srt same equal total by (metis prod.collapse)
qed

theorem getWorkflowsAsync_sorted_witness:
  "consistent (localeCompare exampleWorld) \<and>
   (\<exists>workflows t. getWorkflowsAsync exampleWorld = (Returned workflows, t) \<and>
      sorted_wrt (\<lambda>a b. localeCompare exampleWorld (name a) (name b) \<le> 0) workflows \<and>
      filter (\<lambda>x. name x = ''Test'') workflows = [testWorkflow])"
proof -
  have c: "consistent (localeCompare exampleWorld)"
    by (simp add: exampleWorld_def consistent_compareStrings)
  have e: "filter (\<lambda>x. name x = ''Test'')
             (filter (eligible exampleWorld) [testWorkflow, oldWorkflow, buildWorkflow]) =
           [testWorkflow]"
    by code_simp
  from getWorkflowsAsync_sorted [OF c exampleWorld_listing]
  obtain workflows t where run: "getWorkflowsAsync exampleWorld = (Returned workflows, t)"
    and srt: "sorted_wrt (\<lambda>a b. localeCompare exampleWorld (name a) (name b) \<le> 0) workflows"
    and stable: "\<forall>k. filter (\<lambda>x. name x = k) workflows =
          filter (\<lambda>x. name x = k)
            (filter (eligible exampleWorld)
               (data_workflows \<lparr>status = 200, data_workflows = [testWorkflow, oldWorkflow, buildWorkflow]\<rparr>))"
    by blast
  from stable have "filter (\<lambda>x. name x = ''Test'') workflows =
      filter (\<lambda>x. name x = ''Test'')
        (filter (eligible exampleWorld) [testWorkflow, oldWorkflow, buildWorkflow])"
    by simp
  with e have "filter (\<lambda>x. name x = ''Test'') workflows = [testWorkflow]" by simp
  with run srt
  have "\<exists>workflows t. getWorkflowsAsync exampleWorld = (Returned workflows, t) \<and>
      sorted_wrt (\<lambda>a b. localeCompare exampleWorld (name a) (name b) \<le> 0) workflows \<and>
      filter (\<lambda>x. name x = ''Test'') workflows = [testWorkflow]"
    by blast
  with c show ?thesis by (rule conjI)
qed

text \<open>
  C8. Every identifier other than \<^verbatim>\<open>null\<close> that the resolution returns, found by name or
  path or picked in the list question, is the identifier of a workflow of the list the
  resolution was given; so the test \<^verbatim>\<open>workflows.some((workflow) => workflow.id === workflowId)\<close>
  of the command holds for it.
\<close>

theorem findWorkflowIdAsync_member:
  assumes "findWorkflowIdAsync w workflows workflowName = (Returned (Some i), t)"
  shows "(\<exists>x\<in>set workflows. id' x = i) \<and> workflows_some workflows i"
proof -
  have "\<exists>x\<in>set workflows. id' x = i"
  proof (cases "truthy workflowName")
    case None
    with assms have "user_choice w < length workflows"
      and "i = id' (workflows ! user_choice w)"
      by (auto simp: findWorkflowIdAsync_def promptWorkflowIdAsync_def inquirer_prompt_def
            andThen_def split: if_splits)
    then show ?thesis by force
  next
    case (Some n)
    with assms obtain x where "find (matches w (toLowerCase w n)) workflows = Some x" and "id' x = i"
      by (auto simp: findWorkflowIdAsync_def Let_def)
    then show ?thesis
      by (auto simp: find_Some_iff)
  qed
  then show ?thesis
    by (simp add: workflows_some_def list_ex_iff)
qed

theorem findWorkflowIdAsync_member_witness:
  "findWorkflowIdAsync exampleWorld [buildWorkflow, testWorkflow] None =
     (Returned (Some 2), [Prompt [(''Build'', 1), (''Test'', 2)] 2]) \<and>
   (\<exists>x\<in>set [buildWorkflow, testWorkflow]. id' x = 2) \<and>
   workflows_some [buildWorkflow, testWorkflow] 2"
proof -
  have h: "findWorkflowIdAsync exampleWorld [buildWorkflow, testWorkflow] None =
     (Returned (Some 2), [Prompt [(''Build'', 1), (''Test'', 2)] 2])"
    by code_simp
  from h findWorkflowIdAsync_member [OF h] show ?thesis by (rule conjI)
qed

text \<open>
  C10. An empty string as the name argument is treated exactly as an absent argument,
  by the resolution and by the whole command: it is not matched against any name or
  path. When \<^verbatim>\<open>process.env.CI\<close> is truthy the resolution throws the configuration error
  with no effect; otherwise its only effect is the list question over all workflows of
  the list, and it returns the identifier of the entry the user picks.
\<close>

theorem findWorkflowIdAsync_empty_name:
  "findWorkflowIdAsync w workflows (Some []) = findWorkflowIdAsync w workflows None \<and>
   main w (Some []) options = main w None options \<and>
   (truthy (env_CI w) \<noteq> None \<longrightarrow>
      findWorkflowIdAsync w workflows (Some []) = (Thrown MissingWorkflowName, [])) \<and>
   (truthy (env_CI w) = None \<longrightarrow>
      findWorkflowIdAsync w workflows (Some []) =
        (if user_choice w < length workflows
         then Returned (Some (id' (workflows ! user_choice w)))
         else Thrown PromptAborted,
         [Prompt (map (\<lambda>workflow. (name workflow, id' workflow)) workflows) (length workflows)]))"
proof -
  have same: "findWorkflowIdAsync w ws (Some []) = findWorkflowIdAsync w ws None" for ws
    by (simp add: findWorkflowIdAsync_def)
  then have "main w (Some []) options = main w None options"
    by (simp add: main_def)
  moreover have "truthy (env_CI w) \<noteq> None \<longrightarrow>
      findWorkflowIdAsync w workflows (Some []) = (Thrown MissingWorkflowName, [])"
    by (simp add: findWorkflowIdAsync_def)
  moreover have "truthy (env_CI w) = None \<longrightarrow>
      findWorkflowIdAsync w workflows (Some []) =
        (if user_choice w < length workflows
         then Returned (Some (id' (workflows ! user_choice w)))
         else Thrown PromptAborted,
         [Prompt (map (\<lambda>workflow. (name workflow, id' workflow)) workflows) (length workflows)])"
    by (simp add: findWorkflowIdAsync_def promptWorkflowIdAsync_def inquirer_prompt_def
          andThen_def)
  ultimately show ?thesis using same by blast
qed

theorem findWorkflowIdAsync_empty_name_witness:
  "truthy (env_CI (exampleWorld\<lparr>env_CI := Some ''true''\<rparr>)) \<noteq> None \<and>
   truthy (env_CI exampleWorld) = None \<and>
   matches exampleWorld (toLowerCase exampleWorld []) \<lparr>id' = 7, name = ''Dot'', path = ''.github/workflows/.yml'', state = ''active''\<rparr> \<and>
   findWorkflowIdAsync (exampleWorld\<lparr>env_CI := Some ''true''\<rparr>)
     [\<lparr>id' = 7, name = ''Dot'', path = ''.github/workflows/.yml'', state = ''active''\<rparr>] (Some []) =
     (Thrown MissingWorkflowName, []) \<and>
   findWorkflowIdAsync exampleWorld [buildWorkflow, testWorkflow] (Some []) =
     (Returned (Some 2), [Prompt [(''Build'', 1), (''Test'', 2)] 2])"
proof -
  have ci: "truthy (env_CI (exampleWorld\<lparr>env_CI := Some ''true''\<rparr>)) \<noteq> None"
    by simp
  have no_ci: "truthy (env_CI exampleWorld) = None"
    by (simp add: exampleWorld_def)
  have m: "matches exampleWorld (toLowerCase exampleWorld [])
      \<lparr>id' = 7, name = ''Dot'', path = ''.github/workflows/.yml'', state = ''active''\<rparr>"
    by code_simp
  have u: "user_choice exampleWorld = 1"
    by (simp add: exampleWorld_def)
  from findWorkflowIdAsync_empty_name [of "exampleWorld\<lparr>env_CI := Some ''true''\<rparr>"
      "[\<lparr>id' = 7, name = ''Dot'', path = ''.github/workflows/.yml'', state = ''active''\<rparr>]"] ci
  have a: "findWorkflowIdAsync (exampleWorld\<lparr>env_CI := Some ''true''\<rparr>)
     [\<lparr>id' = 7, name = ''Dot'', path = ''.github/workflows/.yml'', state = ''active''\<rparr>] (Some []) =
     (Thrown MissingWorkflowName, [])"
    by blast
  from findWorkflowIdAsync_empty_name [of exampleWorld "[buildWorkflow, testWorkflow]"] no_ci
  have "findWorkflowIdAsync exampleWorld [buildWorkflow, testWorkflow] (Some []) =
        (if user_choice exampleWorld < length [buildWorkflow, testWorkflow]
         then Returned (Some (id' ([buildWorkflow, testWorkflow] ! user_choice exampleWorld)))
         else Thrown PromptAborted,
         [Prompt (map (\<lambda>workflow. (name workflow, id' workflow)) [buildWorkflow, testWorkflow])
            (length [buildWorkflow, testWorkflow])])"
    by blast
  then have b: "findWorkflowIdAsync exampleWorld [buildWorkflow, testWorkflow] (Some []) =
     (Returned (Some 2), [Prompt [(''Build'', 1), (''Test'', 2)] 2])"
    by (simp add: u buildWorkflow_def testWorkflow_def)
  from ci no_ci m a b show ?thesis by blast
qed

text \<open>
  C1, as amended. For every list of workflows and every name argument that is not
  empty, the resolution has no effect and returns the identifier of the first workflow
  of the list whose name equals the argument without regard to case (the runtime gives
  both the same lowercase form), or whose path in lowercase is
  \<^verbatim>\<open>.github/workflows/<name>.yml\<close> for the lowercase form of the argument, and \<^verbatim>\<open>null\<close> when
  there is none. In that last case the command, run with a token on the list the
  listing returned, throws and makes no dispatch request: it throws the not-found error
  when the reference is resolved, and the error of the query for the current branch
  when that query fails.
\<close>

theorem findWorkflowIdAsync_by_name:
  assumes "n \<noteq> []"
  shows "findWorkflowIdAsync w workflows (Some n) =
           (Returned (map_option id' (find (matchesNameOrPath w n) workflows)), []) \<and>
         (truthy (env_GITHUB_TOKEN w) \<noteq> None \<longrightarrow>
          getWorkflowsAsync w = (Returned workflows, t) \<longrightarrow>
          find (matchesNameOrPath w n) workflows = None \<longrightarrow>
            (\<exists>e. fst (main w (Some n) options) = Thrown e) \<and>
            (\<forall>ev\<in>set (snd (main w (Some n) options)). \<not> is_dispatch ev) \<and>
            (fst (resolveRef w options) \<noteq> Thrown GitFailed \<longrightarrow>
               fst (main w (Some n) options) = Thrown (WorkflowNotFound None)) \<and>
            (fst (resolveRef w options) = Thrown GitFailed \<longrightarrow>
               fst (main w (Some n) options) = Thrown GitFailed))"
proof -
  have m: "matches w (toLowerCase w n) = matchesNameOrPath w n"
    by (rule ext) (rule matches_toLowerCase)
  have res: "findWorkflowIdAsync w workflows (Some n) =
           (Returned (map_option id' (find (matchesNameOrPath w n) workflows)), [])"
    using assms by (simp add: findWorkflowIdAsync_def truthy_nonempty m)
  have inv: "(\<exists>e. fst (main w (Some n) options) = Thrown e) \<and>
            (\<forall>ev\<in>set (snd (main w (Some n) options)). \<not> is_dispatch ev) \<and>
            (fst (resolveRef w options) \<noteq> Thrown GitFailed \<longrightarrow>
               fst (main w (Some n) options) = Thrown (WorkflowNotFound None)) \<and>
            (fst (resolveRef w options) = Thrown GitFailed \<longrightarrow>
               fst (main w (Some n) options) = Thrown GitFailed)"
    if token: "truthy (env_GITHUB_TOKEN w) \<noteq> None"
      and g: "getWorkflowsAsync w = (Returned workflows, t)"
      and none: "find (matchesNameOrPath w n) workflows = None"
  proof -
    from res none have f: "findWorkflowIdAsync w workflows (Some n) = (Returned None, [])"
      by simp
    have q1: "\<forall>ev\<in>set t. \<not> is_dispatch ev"
      using getWorkflowsAsync_quiet [of _ w] g by simp
    obtain b t3 where b: "resolveRef w options = (b, t3)" by (cases "resolveRef w options")
    have q3: "\<forall>ev\<in>set t3. \<not> is_dispatch ev"
    proof
      fix ev assume "ev \<in> set t3"
      then have "ev = GitCurrentBranch"
        using resolveRef_quiet [of ev w options] b by simp
      then show "\<not> is_dispatch ev" by simp
    qed
    show ?thesis
    proof (cases b)
      case (Returned r)
      with token g f b have "main w (Some n) options = (Thrown (WorkflowNotFound None), t @ [] @ t3)"
        by (simp add: main_not_found)
      with q1 q3 b Returned show ?thesis by auto
    next
      case (Thrown e)
      with b resolveRef_Thrown [of w options e] have e: "e = GitFailed" by simp
      from token g f b Thrown have "main w (Some n) options = (Thrown e, t @ [] @ t3)"
        by (simp add: main_ref_failed)
      with q1 q3 b Thrown e show ?thesis by auto
    next
      case (Exited k)
      with b resolveRef_not_Exited [of w options k] show ?thesis by simp
    qed
  qed
  from res inv show ?thesis by blast
qed

theorem findWorkflowIdAsync_by_name_witness:
  "''deploy'' \<noteq> [] \<and>
   truthy (env_GITHUB_TOKEN exampleWorld) \<noteq> None \<and>
   fst (getWorkflowsAsync exampleWorld) = Returned [buildWorkflow, testWorkflow] \<and>
   find (matchesNameOrPath exampleWorld ''deploy'') [buildWorkflow, testWorkflow] = None \<and>
   fst (resolveRef exampleWorld \<lparr>ref = None\<rparr>) \<noteq> Thrown GitFailed \<and>
   findWorkflowIdAsync exampleWorld [buildWorkflow, testWorkflow] (Some ''deploy'') =
     (Returned None, []) \<and>
   fst (main exampleWorld (Some ''deploy'') \<lparr>ref = None\<rparr>) = Thrown (WorkflowNotFound None) \<and>
   filter is_dispatch (snd (main exampleWorld (Some ''deploy'') \<lparr>ref = None\<rparr>)) = [] \<and>
   fst (resolveRef (exampleWorld\<lparr>git_currentBranch := None\<rparr>) \<lparr>ref = None\<rparr>) = Thrown GitFailed \<and>
   fst (main (exampleWorld\<lparr>git_currentBranch := None\<rparr>) (Some ''deploy'') \<lparr>ref = None\<rparr>) =
     Thrown GitFailed \<and>
   findWorkflowIdAsync exampleWorld [buildWorkflow, testWorkflow] (Some ''TEST'') =
     (Returned (Some 2), [])"
proof -
  let ?w = "exampleWorld\<lparr>git_currentBranch := None\<rparr>"
  have n: "''deploy'' \<noteq> []" by simp
  have token: "truthy (env_GITHUB_TOKEN exampleWorld) \<noteq> None"
    by (simp add: exampleWorld_def)
  have none: "find (matchesNameOrPath exampleWorld ''deploy'') [buildWorkflow, testWorkflow] = None"
    by code_simp
  have branch: "fst (resolveRef exampleWorld \<lparr>ref = None\<rparr>) \<noteq> Thrown GitFailed"
    by code_simp
  from findWorkflowIdAsync_by_name [OF n, of exampleWorld "[buildWorkflow, testWorkflow]" _ "\<lparr>ref = None\<rparr>"]
    token exampleWorld_listed_trace none branch
  have found: "findWorkflowIdAsync exampleWorld [buildWorkflow, testWorkflow] (Some ''deploy'') =
     (Returned None, []) \<and>
   fst (main exampleWorld (Some ''deploy'') \<lparr>ref = None\<rparr>) = Thrown (WorkflowNotFound None) \<and>
   filter is_dispatch (snd (main exampleWorld (Some ''deploy'') \<lparr>ref = None\<rparr>)) = []"
    by (simp add: filter_empty_conv)
  have token': "truthy (env_GITHUB_TOKEN ?w) \<noteq> None"
    by (simp add: exampleWorld_def)
  have listed': "getWorkflowsAsync ?w =
     (Returned [buildWorkflow, testWorkflow],
      [Request listing_request, PathExists ''/expo/.github/workflows/test.yml'',
       PathExists ''/expo/.github/workflows/build.yml''])"
    by code_simp
  have none': "find (matchesNameOrPath ?w ''deploy'') [buildWorkflow, testWorkflow] = None"
    by code_simp
  have failed: "fst (resolveRef ?w \<lparr>ref = None\<rparr>) = Thrown GitFailed"
    by code_simp
  from findWorkflowIdAsync_by_name [OF n, of ?w "[buildWorkflow, testWorkflow]" _ "\<lparr>ref = None\<rparr>"]
    token' listed' none' failed
  have thrown: "fst (main ?w (Some ''deploy'') \<lparr>ref = None\<rparr>) = Thrown GitFailed"
    by blast
  have t: "''TEST'' \<noteq> []" by simp
  have first: "map_option id' (find (matchesNameOrPath exampleWorld ''TEST'') [buildWorkflow, testWorkflow]) =
      Some 2"
    by code_simp
  from findWorkflowIdAsync_by_name [OF t, of exampleWorld "[buildWorkflow, testWorkflow]"] first
  have match: "findWorkflowIdAsync exampleWorld [buildWorkflow, testWorkflow] (Some ''TEST'') =
     (Returned (Some 2), [])"
    by simp
  from n token exampleWorld_listed none branch found failed thrown match show ?thesis by blast
qed

text \<open>
  C1 as first stated does not hold: the reference is resolved between the resolution
  and the not-found test, so with no \<^verbatim>\<open>--ref\<close> and a failing branch query the command ends
  with the error of the query, although no workflow matches.
\<close>

theorem not_found_after_branch_query_counterexample:
  "find (matchesNameOrPath (exampleWorld\<lparr>git_currentBranch := None\<rparr>) ''deploy'')
     [buildWorkflow, testWorkflow] = None \<and>
   fst (getWorkflowsAsync (exampleWorld\<lparr>git_currentBranch := None\<rparr>)) =
     Returned [buildWorkflow, testWorkflow] \<and>
   fst (main (exampleWorld\<lparr>git_currentBranch := None\<rparr>) (Some ''deploy'') \<lparr>ref = None\<rparr>) =
     Thrown GitFailed \<and>
   fst (main (exampleWorld\<lparr>git_currentBranch := None\<rparr>) (Some ''deploy'') \<lparr>ref = None\<rparr>) \<noteq>
     Thrown (WorkflowNotFound None)"
  by code_simp




text \<open>
  C5, as amended. For every run with no name argument (or an empty one) while
  \<^verbatim>\<open>process.env.CI\<close> is set and not empty: the list question is never asked, no dispatch
  request is made and the current branch is not queried. Without a token the command
  throws the configuration error of the token with no effect. With a token the listing
  request is made first: when it fails, its error ends the run; when it resolves,
  the command throws the configuration error of the missing name, after the listing
  request and the look at the local files.
\<close>

theorem main_on_CI_without_name:
  assumes "truthy workflowName = None" and "truthy (env_CI w) \<noteq> None"
  shows "(\<forall>ev\<in>set (snd (main w workflowName options)).
            \<not> is_prompt ev \<and> \<not> is_dispatch ev \<and> ev \<noteq> GitCurrentBranch) \<and>
         (truthy (env_GITHUB_TOKEN w) = None \<longrightarrow>
            main w workflowName options = (Thrown MissingToken, [])) \<and>
         (truthy (env_GITHUB_TOKEN w) \<noteq> None \<longrightarrow> octokit_request w listing_request = None \<longrightarrow>
            main w workflowName options = (Thrown RequestFailed, [Request listing_request])) \<and>
         (truthy (env_GITHUB_TOKEN w) \<noteq> None \<longrightarrow> octokit_request w listing_request \<noteq> None \<longrightarrow>
            (\<exists>checks. main w workflowName options =
                 (Thrown MissingWorkflowName, Request listing_request # checks) \<and>
               (\<forall>ev\<in>set checks. \<exists>p. ev = PathExists p)))"
proof (cases "truthy (env_GITHUB_TOKEN w) = None")
  case True
  then show ?thesis by (simp add: main_def)
next
  case token: False
  show ?thesis
  proof (cases "octokit_request w listing_request")
    case None
    then have "main w workflowName options = (Thrown RequestFailed, [Request listing_request])"
      using token by (simp add: main_listing_failed getWorkflowsAsync_failed)
    with token None show ?thesis
      by (simp add: listing_request_def)
  next
    case (Some response)
    then obtain workflows checks
      where g: "getWorkflowsAsync w = (Returned workflows, Request listing_request # checks)"
        and c: "\<forall>ev\<in>set checks. \<exists>p. ev = PathExists p"
      using getWorkflowsAsync_answered by blast
    from assms have "findWorkflowIdAsync w workflows workflowName = (Thrown MissingWorkflowName, [])"
      by (rule findWorkflowIdAsync_on_CI)
    with token g have m: "main w workflowName options =
        (Thrown MissingWorkflowName, Request listing_request # checks)"
      using main_resolution_failed [of w workflows "Request listing_request # checks"
          workflowName MissingWorkflowName "[]" options]
      by simp
    have "\<forall>ev\<in>set (Request listing_request # checks).
            \<not> is_prompt ev \<and> \<not> is_dispatch ev \<and> ev \<noteq> GitCurrentBranch"
      using c by (auto simp: listing_request_def)
    with m c token Some show ?thesis by auto
  qed
qed

theorem main_on_CI_without_name_witness:
  "truthy None = None \<and>
   truthy (env_CI (exampleWorld\<lparr>env_CI := Some ''true''\<rparr>)) \<noteq> None \<and>
   truthy (env_GITHUB_TOKEN (exampleWorld\<lparr>env_CI := Some ''true''\<rparr>)) \<noteq> None \<and>
   octokit_request (exampleWorld\<lparr>env_CI := Some ''true''\<rparr>) listing_request \<noteq> None \<and>
   filter (\<lambda>ev. is_prompt ev \<or> is_dispatch ev \<or> ev = GitCurrentBranch)
     (snd (main (exampleWorld\<lparr>env_CI := Some ''true''\<rparr>) None \<lparr>ref = None\<rparr>)) = [] \<and>
   (\<exists>checks. main (exampleWorld\<lparr>env_CI := Some ''true''\<rparr>) None \<lparr>ref = None\<rparr> =
      (Thrown MissingWorkflowName, Request listing_request # checks))"
proof -
  let ?w = "exampleWorld\<lparr>env_CI := Some ''true''\<rparr>"
  have n: "truthy None = None" by simp
  have ci: "truthy (env_CI ?w) \<noteq> None" by simp
  have token: "truthy (env_GITHUB_TOKEN ?w) \<noteq> None"
    by (simp add: exampleWorld_def)
  have listed: "octokit_request ?w listing_request \<noteq> None"
    by (simp add: octokit_request_def exampleWorld_def exampleRemote_def)
  from main_on_CI_without_name [OF n ci, of "\<lparr>ref = None\<rparr>"] token listed
  have "(\<forall>ev\<in>set (snd (main ?w None \<lparr>ref = None\<rparr>)).
      \<not> is_prompt ev \<and> \<not> is_dispatch ev \<and> ev \<noteq> GitCurrentBranch) \<and>
   (\<exists>checks. main ?w None \<lparr>ref = None\<rparr> =
      (Thrown MissingWorkflowName, Request listing_request # checks))"
    by blast
  then have "filter (\<lambda>ev. is_prompt ev \<or> is_dispatch ev \<or> ev = GitCurrentBranch)
       (snd (main ?w None \<lparr>ref = None\<rparr>)) = [] \<and>
   (\<exists>checks. main ?w None \<lparr>ref = None\<rparr> =
      (Thrown MissingWorkflowName, Request listing_request # checks))"
    unfolding filter_empty_conv by blast
  with n ci token listed show ?thesis by blast
qed

text \<open>
  C5 as first stated does not hold: the command lists the workflows before the
  resolution looks at \<^verbatim>\<open>process.env.CI\<close>, so with a token the listing request is made
  before the configuration error is thrown.
\<close>

theorem listing_before_name_check_counterexample:
  "main (exampleWorld\<lparr>env_CI := Some ''true''\<rparr>) None \<lparr>ref = None\<rparr> =
     (Thrown MissingWorkflowName,
      [Request listing_request, PathExists ''/expo/.github/workflows/test.yml'',
       PathExists ''/expo/.github/workflows/build.yml'']) \<and>
   requests (snd (main (exampleWorld\<lparr>env_CI := Some ''true''\<rparr>) None \<lparr>ref = None\<rparr>)) \<noteq> []"
  by code_simp

text \<open>
  C6, as amended. For every run in which \<^verbatim>\<open>--ref\<close> is given a value that is not empty,
  the current branch is never queried, and every dispatch request the run makes carries
  that value, as it is, as its \<^verbatim>\<open>ref\<close>.
\<close>

theorem main_explicit_ref:
  assumes "ref options = Some r" and "r \<noteq> []"
  shows "GitCurrentBranch \<notin> set (snd (main w n options)) \<and>
         (\<forall>q. Request q \<in> set (snd (main w n options)) \<longrightarrow> is_dispatch (Request q) \<longrightarrow>
              (\<exists>i. q = dispatch_request (env_GITHUB_TOKEN w) i r) \<and>
              map_of (params q) ''ref'' = Some (Str r))"
proof -
  have rr: "resolveRef w options = (Returned r, [])"
    using assms by (rule resolveRef_explicit)
  have g: "ev \<in> set (snd (getWorkflowsAsync w)) \<Longrightarrow> ev \<noteq> GitCurrentBranch \<and> \<not> is_dispatch ev" for ev
    using getWorkflowsAsync_quiet [of ev w] by simp
  have f: "ev \<in> set (snd (findWorkflowIdAsync w workflows n)) \<Longrightarrow>
             ev \<noteq> GitCurrentBranch \<and> \<not> is_dispatch ev" for ev workflows
    using findWorkflowIdAsync_quiet [of ev w workflows n] by simp
  show ?thesis
  proof (cases rule: main_cases [of w n options])
    case no_token
    then show ?thesis by simp
  next
    case (listing_failed e t1)
    with g show ?thesis by fastforce
  next
    case (resolution_failed workflows t1 e t2)
    with g f [of _ workflows] show ?thesis by fastforce
  next
    case (ref_failed workflows t1 workflowId t2 e t3)
    with rr show ?thesis by simp
  next
    case (not_found workflows t1 workflowId t2 r' t3)
    with rr have "t3 = []" by simp
    with not_found g f [of _ workflows] show ?thesis by fastforce
  next
    case (dispatched workflows t1 i t2 r' t3)
    with rr have r': "r' = r" "t3 = []" by simp_all
    have quiet: "\<forall>ev\<in>set (t1 @ t2). ev \<noteq> GitCurrentBranch \<and> \<not> is_dispatch ev"
      using dispatched(2,3) g f [of _ workflows] by fastforce
    have tr: "snd (main w n options) = (t1 @ t2) @ snd (dispatchWorkflowAsync w i r)"
      using dispatched(7) r' by simp
    have no_query: "GitCurrentBranch \<notin> set (snd (main w n options))"
      using tr quiet dispatchWorkflowAsync_no_branch_query [of w i r] by auto
    have "(\<exists>i. q = dispatch_request (env_GITHUB_TOKEN w) i r) \<and>
              map_of (params q) ''ref'' = Some (Str r)"
      if "Request q \<in> set (snd (main w n options))" and "is_dispatch (Request q)" for q
    proof -
      from quiet that(2) have "Request q \<notin> set (t1 @ t2)" by blast
      with that(1) tr have "Request q \<in> set (snd (dispatchWorkflowAsync w i r))" by simp
      then have "q = dispatch_request (env_GITHUB_TOKEN w) i r"
        by (rule dispatchWorkflowAsync_request)
      then show ?thesis
        using ref_of_dispatch_request by blast
    qed
    with no_query show ?thesis by blast
  qed
qed

theorem main_explicit_ref_witness:
  "ref \<lparr>ref = Some ''v1.0''\<rparr> = Some ''v1.0'' \<and> ''v1.0'' \<noteq> [] \<and>
   Request (dispatch_request (Some ''secret'') 2 ''v1.0'') \<in>
     set (snd (main exampleWorld (Some ''test'') \<lparr>ref = Some ''v1.0''\<rparr>)) \<and>
   is_dispatch (Request (dispatch_request (Some ''secret'') 2 ''v1.0'')) \<and>
   GitCurrentBranch \<notin> set (snd (main exampleWorld (Some ''test'') \<lparr>ref = Some ''v1.0''\<rparr>)) \<and>
   map_of (params (dispatch_request (Some ''secret'') 2 ''v1.0'')) ''ref'' = Some (Str ''v1.0'')"
proof -
  let ?q = "dispatch_request (Some ''secret'') 2 ''v1.0''"
  have a: "ref \<lparr>ref = Some ''v1.0''\<rparr> = Some ''v1.0''" by simp
  have b: "''v1.0'' \<noteq> []" by simp
  have c: "Request ?q \<in> set (snd (main exampleWorld (Some ''test'') \<lparr>ref = Some ''v1.0''\<rparr>))"
    by code_simp
  have d: "is_dispatch (Request ?q)"
    by (simp add: dispatch_request_def)
  from main_explicit_ref [OF a b, of exampleWorld "Some ''test''"] c d
  have "GitCurrentBranch \<notin> set (snd (main exampleWorld (Some ''test'') \<lparr>ref = Some ''v1.0''\<rparr>)) \<and>
        map_of (params ?q) ''ref'' = Some (Str ''v1.0'')"
    by blast
  with a b c d show ?thesis by blast
qed

text \<open>
  C6 as first stated does not hold: \<^verbatim>\<open>options.ref || ...\<close> takes an empty string for no
  value, so with \<^verbatim>\<open>--ref ""\<close> the current branch is queried and its name is dispatched.
\<close>

theorem empty_ref_queries_branch_counterexample:
  "ref \<lparr>ref = Some []\<rparr> = Some [] \<and>
   GitCurrentBranch \<in> set (snd (main exampleWorld (Some ''test'') \<lparr>ref = Some []\<rparr>)) \<and>
   requests (snd (main exampleWorld (Some ''test'') \<lparr>ref = Some []\<rparr>)) =
     [listing_request, dispatch_request (Some ''secret'') 2 ''main''] \<and>
   map_of (params (dispatch_request (Some ''secret'') 2 ''main'')) ''ref'' \<noteq> Some (Str [])"
  by code_simp

text \<open>
  C9. The listing request carries no header at all, so no \<^verbatim>\<open>authorization\<close> header, and
  it does not depend on the token: whatever the value of \<^verbatim>\<open>GITHUB_TOKEN\<close>, the requests of
  a run other than the dispatch request are the one fixed listing request, or none when
  the token is unset or empty. For two runs that differ only in the value of a token
  that is set and not empty, the listing requests are the same, and so are all effects
  up to the answer to the dispatch request once the \<^verbatim>\<open>authorization\<close> header of that
  request is left out: the token shows in that header only.
\<close>

theorem listing_request_ignores_token:
  assumes "x1 \<noteq> []" and "x2 \<noteq> []"
  shows "headers listing_request = [] \<and>
         (\<forall>x. filter (\<lambda>q. \<not> is_dispatch (Request q))
                 (requests (snd (main (w\<lparr>env_GITHUB_TOKEN := x\<rparr>) n options))) =
               (if truthy x = None then [] else [listing_request])) \<and>
         filter (\<lambda>q. \<not> is_dispatch (Request q))
           (requests (snd (main (w\<lparr>env_GITHUB_TOKEN := Some x1\<rparr>) n options))) =
         filter (\<lambda>q. \<not> is_dispatch (Request q))
           (requests (snd (main (w\<lparr>env_GITHUB_TOKEN := Some x2\<rparr>) n options))) \<and>
         map erase_event (filter (\<lambda>ev. \<not> is_log ev)
            (snd (main (w\<lparr>env_GITHUB_TOKEN := Some x1\<rparr>) n options))) =
         map erase_event (filter (\<lambda>ev. \<not> is_log ev)
            (snd (main (w\<lparr>env_GITHUB_TOKEN := Some x2\<rparr>) n options)))"
proof -
  have listing: "filter (\<lambda>q. \<not> is_dispatch (Request q))
                 (requests (snd (main (w\<lparr>env_GITHUB_TOKEN := x\<rparr>) n options))) =
               (if truthy x = None then [] else [listing_request])" for x
    by (simp add: requests_main not_dispatch_listing_request is_dispatch_dispatch_request
          del: is_dispatch.simps split: option.splits)
  have "filter (\<lambda>q. \<not> is_dispatch (Request q))
           (requests (snd (main (w\<lparr>env_GITHUB_TOKEN := Some x1\<rparr>) n options))) =
         filter (\<lambda>q. \<not> is_dispatch (Request q))
           (requests (snd (main (w\<lparr>env_GITHUB_TOKEN := Some x2\<rparr>) n options)))"
  proof -
    have "truthy (Some x1) \<noteq> None" and "truthy (Some x2) \<noteq> None"
      using assms by (simp_all add: truthy_nonempty)
    then have "filter (\<lambda>q. \<not> is_dispatch (Request q))
           (requests (snd (main (w\<lparr>env_GITHUB_TOKEN := Some x1\<rparr>) n options))) = [listing_request]"
      and "filter (\<lambda>q. \<not> is_dispatch (Request q))
           (requests (snd (main (w\<lparr>env_GITHUB_TOKEN := Some x2\<rparr>) n options))) = [listing_request]"
      using listing [of "Some x1"] listing [of "Some x2"] by presburger+
    then show ?thesis by (simp only:)
  qed
  moreover have "headers listing_request = []"
    by (simp add: listing_request_def)
  ultimately show ?thesis
    using listing main_token_effects [OF assms] by blast
qed

theorem listing_request_ignores_token_witness:
  "''secret'' \<noteq> [] \<and> ''other'' \<noteq> [] \<and>
   requests (snd (main (exampleWorld\<lparr>env_GITHUB_TOKEN := Some ''secret''\<rparr>) (Some ''test'') \<lparr>ref = None\<rparr>)) =
     [listing_request, dispatch_request (Some ''secret'') 2 ''main''] \<and>
   requests (snd (main (exampleWorld\<lparr>env_GITHUB_TOKEN := Some ''other''\<rparr>) (Some ''test'') \<lparr>ref = None\<rparr>)) =
     [listing_request, dispatch_request (Some ''other'') 2 ''main''] \<and>
   filter (\<lambda>q. \<not> is_dispatch (Request q))
     (requests (snd (main (exampleWorld\<lparr>env_GITHUB_TOKEN := Some ''secret''\<rparr>) (Some ''test'') \<lparr>ref = None\<rparr>))) =
   filter (\<lambda>q. \<not> is_dispatch (Request q))
     (requests (snd (main (exampleWorld\<lparr>env_GITHUB_TOKEN := Some ''other''\<rparr>) (Some ''test'') \<lparr>ref = None\<rparr>)))"
proof -
  have a: "''secret'' \<noteq> []" and b: "''other'' \<noteq> []" by simp_all
  have r1: "requests (snd (main (exampleWorld\<lparr>env_GITHUB_TOKEN := Some ''secret''\<rparr>) (Some ''test'') \<lparr>ref = None\<rparr>)) =
     [listing_request, dispatch_request (Some ''secret'') 2 ''main'']"
    by code_simp
  have r2: "requests (snd (main (exampleWorld\<lparr>env_GITHUB_TOKEN := Some ''other''\<rparr>) (Some ''test'') \<lparr>ref = None\<rparr>)) =
     [listing_request, dispatch_request (Some ''other'') 2 ''main'']"
    by code_simp
  from listing_request_ignores_token [OF a b, of exampleWorld "Some ''test''" "\<lparr>ref = None\<rparr>"]
  have "filter (\<lambda>q. \<not> is_dispatch (Request q))
     (requests (snd (main (exampleWorld\<lparr>env_GITHUB_TOKEN := Some ''secret''\<rparr>) (Some ''test'') \<lparr>ref = None\<rparr>))) =
   filter (\<lambda>q. \<not> is_dispatch (Request q))
     (requests (snd (main (exampleWorld\<lparr>env_GITHUB_TOKEN := Some ''other''\<rparr>) (Some ''test'') \<lparr>ref = None\<rparr>)))"
    by blast
  with a b r1 r2 show ?thesis by blast
qed

end
